theory Spec2Isabelle
  imports Complex_Main "HOL-Library.Word" "HOL-Library.Signed_Division"
begin

section \<open>The mesh path table (Routing.h)\<close>

text \<open>
  A \<open>std::chrono::steady_clock::time_point\<close> is a signed 64-bit count of nanoseconds
  (the representation of libstdc++ and libc++). It is kept as a 64-bit word and read with
  \<open>sint\<close>; a \<open>folly::MacAddress\<close> is identified with the value of its \<open>u64NBO()\<close>.
\<close>

type_synonym time_point = "64 word"

datatype MacAddress = MacAddress (u64NBO: "64 word")

record MeshPath =
  dst :: MacAddress
  nextHop :: MacAddress
  sn :: "64 word"
  metric :: "32 word"
  nextHopMetric :: "32 word"
  hopCount :: "8 word"
  expTime :: time_point
  isRoot :: bool
  isGate :: bool

text \<open>
  \<open>explicit MeshPath(folly::MacAddress _dst)\<close> (\<open>dst0\<close> here): every other member takes its default
  member initialiser; the one of \<open>expTime\<close> reads the clock, whose reading is the first
  argument here.
\<close>

definition MeshPath_ctor :: "time_point \<Rightarrow> MacAddress \<Rightarrow> MeshPath" where
  "MeshPath_ctor now dst0 =
     \<lparr>dst = dst0, nextHop = MacAddress 0, sn = 0, metric = 0, nextHopMetric = 0,
      hopCount = 0, expTime = now, isRoot = False, isGate = False\<rparr>"

text \<open>\<open>MeshPath::expired()\<close>: \<open>steady_clock::now() > expTime\<close>, a signed comparison.\<close>

definition expired :: "time_point \<Rightarrow> MeshPath \<Rightarrow> bool" where
  "expired now p = (sint (expTime p) < sint now)"


section \<open>The introspection row (MeshServiceHandler.h)\<close>

text \<open>
  The row type \<open>thrift::MpathEntry\<close> is generated code; a row is kept here as the values
  the handler passes to its constructor, in the order it passes them.
\<close>

record MpathEntry =
  row_dst :: "64 word"
  row_nextHop :: "64 word"
  row_sn :: "64 word"
  row_metric :: "32 word"
  row_expTime :: "64 word"
  row_nextHopMetric :: "32 word"
  row_hopCount :: "8 word"
  row_isRoot :: bool
  row_isGate :: bool

text \<open>
  \<open>std::chrono::duration_cast<std::chrono::milliseconds>\<close> of a nanosecond duration: the
  signed count divided by 1000000, truncating towards zero; \<open>count()\<close> is again a signed
  64-bit value.
\<close>

definition duration_cast_milliseconds :: "64 word \<Rightarrow> 64 word" where
  "duration_cast_milliseconds d = word_of_int (sint d sdiv 1000000)"

text \<open>
  The expiry argument of the row:
  \<open>std::max(static_cast<uint64_t>(0), static_cast<uint64_t>(duration_cast<milliseconds>(
  expTime - now).count()))\<close>. The cast to \<open>uint64_t\<close> keeps the bits, and \<open>max\<close> is the
  unsigned one (the order of words is the unsigned order).
\<close>

definition expTimeRemainingMs :: "time_point \<Rightarrow> time_point \<Rightarrow> 64 word" where
  "expTimeRemainingMs now e = max (0 :: 64 word) (duration_cast_milliseconds (e - now))"

definition mpathRow :: "time_point \<Rightarrow> MacAddress \<times> MeshPath \<Rightarrow> MpathEntry" where
  "mpathRow now it =
     \<lparr>row_dst = u64NBO (fst it),
      row_nextHop = u64NBO (nextHop (snd it)),
      row_sn = sn (snd it),
      row_metric = metric (snd it),
      row_expTime = expTimeRemainingMs now (expTime (snd it)),
      row_nextHopMetric = nextHopMetric (snd it),
      row_hopCount = hopCount (snd it),
      row_isRoot = isRoot (snd it),
      row_isGate = isGate (snd it)\<rparr>"

text \<open>
  The loop of \<open>dumpMpath\<close> over the snapshot. The clock is read once per row: \<open>clock k\<close> is
  its \<open>k\<close>-th reading. The snapshot is a list of key and entry in the order the
  \<open>unordered_map\<close> iterates.
\<close>

fun dumpMpath_loop ::
  "(nat \<Rightarrow> time_point) \<Rightarrow> nat \<Rightarrow> (MacAddress \<times> MeshPath) list \<Rightarrow> MpathEntry list
   \<Rightarrow> MpathEntry list" where
  "dumpMpath_loop clock k [] ret = ret"
| "dumpMpath_loop clock k (it # mpaths) ret =
     dumpMpath_loop clock (Suc k) mpaths (ret @ [mpathRow (clock k) it])"

text \<open>
  \<open>MeshServiceHandler::dumpMpath\<close>. The pointer \<open>routing_\<close> is \<open>None\<close> when null and
  otherwise holds the snapshot that \<open>routing_->dumpMpaths()\<close> returns, which is an
  input here.
\<close>

definition dumpMpath ::
  "(nat \<Rightarrow> time_point) \<Rightarrow> (MacAddress \<times> MeshPath) list option \<Rightarrow> MpathEntry list
   \<Rightarrow> MpathEntry list" where
  "dumpMpath clock routing ret =
     (case routing of
        None \<Rightarrow> ret
      | Some mpaths \<Rightarrow> dumpMpath_loop clock 0 mpaths ret)"


section \<open>The gateway connectivity monitor (GatewayConnectivityMonitor.cpp)\<close>

subsection \<open>The outside world\<close>

text \<open>
  Every call the monitor makes to a collaborator is appended to a trace, oldest first:
  \<open>folly::writeFile(value, path, O_WRONLY)\<close>, \<open>scheduleTimeout(interval)\<close> on the
  timer, \<open>Socket::connect(interface, address, timeout)\<close>,
  \<open>statsClient_.incrementSumStat(key)\<close>, \<open>statsClient_.setAvgStat(key, value)\<close>,
  \<open>DebugFsWriter::writeDebugStat(key, value)\<close>, \<open>nlHandler_.setRootMode(mode)\<close> and
  \<open>routing_->setGatewayStatus(isGate)\<close>, in the order of the constructors of \<open>event\<close>.
  \<open>Socket::Result\<close> has the two members the monitor reads.
\<close>

type_synonym SocketAddress = string

record Result =
  success :: bool
  errorMsg :: string

datatype event =
    WriteFile string string
  | ScheduleTimeout nat
  | Connect string SocketAddress nat
  | IncrementSumStat string
  | SetAvgStat string int
  | WriteDebugStat string string
  | SetRootMode "8 word"
  | SetGatewayStatus bool

text \<open>
  The class \<open>Socket\<close> is outside the monitor: \<open>connect_result k iface addr timeout\<close> is
  what the \<open>k\<close>-th \<open>Socket::connect\<close> of the run answers (the network may answer the same
  address differently each time), and \<open>Result_default\<close> is a default-constructed
  \<open>Socket::Result\<close>.
\<close>

record Socket =
  connect_result :: "nat \<Rightarrow> string \<Rightarrow> SocketAddress \<Rightarrow> nat \<Rightarrow> Result"
  Result_default :: Result

subsection \<open>Members\<close>

text \<open>
  The members fixed by the constructor, under their names without the final underscore.
  \<open>routing_\<close> is a pointer that may be null: it is \<open>True\<close> when it points to a routing
  engine. The five dampener parameters go to the base class \<open>RouteDampener\<close> and are
  kept as the numbers the specification computes with; durations are in seconds.
\<close>

record config =
  monitoredInterface :: string
  monitoredAddresses :: "SocketAddress list"
  monitorInterval :: nat
  monitorSocketTimeout :: nat
  penalty :: nat
  suppressLimit :: nat
  reuseLimit :: nat
  halfLife :: nat
  maxSuppressLimit :: nat
  robustness :: nat
  setRootModeIfGate :: "8 word"
  routing :: bool

text \<open>
  The members that change, with the trace and the number of connects made so far. The
  first three are the state of the base class \<open>RouteDampener\<close>, as the specification
  has it: the figure of merit, the time of its last update and the suppressed flag.
\<close>

record monitor =
  fom :: real
  lastUpdate :: real
  suppressed :: bool
  isGatewayActive :: bool
  trace :: "event list"
  connects :: nat

definition emit :: "event \<Rightarrow> monitor \<Rightarrow> monitor" where
  "emit e m = m\<lparr>trace := trace m @ [e]\<rparr>"

subsection \<open>Probing\<close>

text \<open>
  \<open>socket.connect(interface, address, timeout)\<close> on a fresh \<open>Socket\<close>: the call is
  recorded and answered by the network.
\<close>

definition Socket_connect ::
  "Socket \<Rightarrow> string \<Rightarrow> SocketAddress \<Rightarrow> nat \<Rightarrow> monitor \<Rightarrow> Result \<times> monitor" where
  "Socket_connect sock iface addr timeout m =
     (connect_result sock (connects m) iface addr timeout,
      (emit (Connect iface addr timeout) m)\<lparr>connects := Suc (connects m)\<rparr>)"

text \<open>
  The loop of \<open>probeWanConnectivity\<close> over \<open>monitoredAddresses_\<close>: each turn assigns
  \<open>result\<close> and leaves the loop at the first success. It returns \<open>connectionSucceeded\<close>
  and \<open>result\<close>.
\<close>

fun connect_loop ::
  "Socket \<Rightarrow> config \<Rightarrow> SocketAddress list \<Rightarrow> Result \<Rightarrow> monitor \<Rightarrow> bool \<times> Result \<times> monitor" where
  "connect_loop sock cfg [] result m = (False, result, m)"
| "connect_loop sock cfg (monitoredAddress # rest) result m =
     (case Socket_connect sock (monitoredInterface cfg) monitoredAddress
             (monitorSocketTimeout cfg) m of
        (result', m') \<Rightarrow>
          if success result' then (True, result', m')
          else connect_loop sock cfg rest result' m')"

definition stat_success :: string where
  "stat_success = ''fbmeshd.gateway_connectivity_monitor.probe_wan_connectivity.success''"

definition stat_failed :: "string \<Rightarrow> string" where
  "stat_failed msg =
     ''fbmeshd.gateway_connectivity_monitor.probe_wan_connectivity.failed.'' @ msg"

definition probeWanConnectivity :: "Socket \<Rightarrow> config \<Rightarrow> monitor \<Rightarrow> bool \<times> monitor" where
  "probeWanConnectivity sock cfg m =
     (case connect_loop sock cfg (monitoredAddresses cfg) (Result_default sock) m of
        (connectionSucceeded, result, m') \<Rightarrow>
          if connectionSucceeded
          then (True, emit (IncrementSumStat stat_success) m')
          else (False, emit (IncrementSumStat (stat_failed (errorMsg result))) m'))"

text \<open>
  \<open>probeWanConnectivityRobustly\<close>: the loop
  \<open>for (size_t tryNum{0}; tryNum < robustness_; ++tryNum)\<close>.
\<close>

function probeRobustly_loop ::
  "Socket \<Rightarrow> config \<Rightarrow> nat \<Rightarrow> monitor \<Rightarrow> bool \<times> monitor" where
  "probeRobustly_loop sock cfg tryNum m =
     (if tryNum < robustness cfg
      then (case probeWanConnectivity sock cfg m of
              (ok, m') \<Rightarrow> if ok then (True, m') else probeRobustly_loop sock cfg (Suc tryNum) m')
      else (False, m))"
  by pat_completeness auto
termination
  by (relation "measure (\<lambda>(sock, cfg, tryNum, m). robustness cfg - tryNum)") auto

definition probeWanConnectivityRobustly :: "Socket \<Rightarrow> config \<Rightarrow> monitor \<Rightarrow> bool \<times> monitor" where
  "probeWanConnectivityRobustly sock cfg m = probeRobustly_loop sock cfg 0 m"

subsection \<open>Advertising and withdrawing\<close>

definition setStat :: "string \<Rightarrow> int \<Rightarrow> monitor \<Rightarrow> monitor" where
  "setStat path v m = emit (SetAvgStat (''fbmeshd.gateway_connectivity_monitor.'' @ path) v) m"

definition advertiseDefaultRoute :: "config \<Rightarrow> monitor \<Rightarrow> monitor" where
  "advertiseDefaultRoute cfg m =
     (let m1 = (if setRootModeIfGate cfg \<noteq> 0
                then emit (SetRootMode (setRootModeIfGate cfg)) m else m)
      in if routing cfg then emit (SetGatewayStatus True) m1 else m1)"

definition withdrawDefaultRoute :: "config \<Rightarrow> monitor \<Rightarrow> monitor" where
  "withdrawDefaultRoute cfg m =
     (let m1 = (if setRootModeIfGate cfg \<noteq> 0 then emit (SetRootMode 0) m else m)
      in if routing cfg then emit (SetGatewayStatus False) m1 else m1)"

text \<open>The hooks the dampener calls.\<close>

definition dampen :: "config \<Rightarrow> monitor \<Rightarrow> monitor" where
  "dampen cfg m =
     (if isGatewayActive m
      then withdrawDefaultRoute cfg (emit (WriteDebugStat ''is_gateway'' ''false'') m)
      else m)"

definition undampen :: "config \<Rightarrow> monitor \<Rightarrow> monitor" where
  "undampen cfg m =
     (if isGatewayActive m
      then advertiseDefaultRoute cfg (emit (WriteDebugStat ''is_gateway'' ''true'') m)
      else m)"

subsection \<open>The route dampener\<close>

text \<open>
  The base class \<open>RouteDampener\<close> lives in RouteDampener.h and RouteDampener.cpp, which
  are missing; the monitor's own code uses its \<open>isDampened\<close> and \<open>flap\<close>. The time of
  a call is the argument \<open>t\<close>, in seconds.
\<close>

text \<open>
  Modelled from the spec: \<open>RouteDampener::isDampened\<close> (missing). The spec has the monitor
  test "!dampener.suppressed", where "suppressed: boolean; true while fom >= suppressLimit".
\<close>

definition isDampened :: "monitor \<Rightarrow> bool" where
  "isDampened m = suppressed m"

text \<open>
  Modelled from the spec: the decay step of \<open>RouteDampener\<close> (missing). The spec: "Decay:
  on every state read or mutation at time t, let dt = t - lastUpdate; set
  fom := min(maxSuppressLimit, fom * 0.5^(dt/halfLife)); set lastUpdate = t."
\<close>

definition decay :: "config \<Rightarrow> real \<Rightarrow> monitor \<Rightarrow> monitor" where
  "decay cfg t m =
     m\<lparr>fom := min (real (maxSuppressLimit cfg))
                 (fom m * (1 / 2) powr ((t - lastUpdate m) / real (halfLife cfg))),
       lastUpdate := t\<rparr>"

text \<open>
  Modelled from the spec: \<open>RouteDampener::flap\<close> (missing). The spec: "Procedure: decay;
  fom := min(maxSuppressLimit, fom + penalty); if !suppressed && fom >= suppressLimit
  then transition to suppressed, invoke dampen() hook." The hook is the monitor's
  \<open>dampen\<close> above.
\<close>

definition flap :: "config \<Rightarrow> real \<Rightarrow> monitor \<Rightarrow> monitor" where
  "flap cfg t m =
     (let m1 = decay cfg t m;
          m2 = m1\<lparr>fom := min (real (maxSuppressLimit cfg)) (fom m1 + real (penalty cfg))\<rparr>
      in if \<not> suppressed m2 \<and> real (suppressLimit cfg) \<le> fom m2
         then dampen cfg (m2\<lparr>suppressed := True\<rparr>)
         else m2)"

subsection \<open>The connectivity check\<close>

text \<open>
  \<open>checkRoutesAndAdvertise\<close>; \<open>t\<close> is the time at which \<open>flap\<close> would be called.
\<close>

definition checkRoutesAndAdvertise :: "Socket \<Rightarrow> config \<Rightarrow> real \<Rightarrow> monitor \<Rightarrow> monitor" where
  "checkRoutesAndAdvertise sock cfg t m =
     (case probeWanConnectivityRobustly sock cfg m of
        (ok, m0) \<Rightarrow>
          if ok then
            (let m1 = (if \<not> isDampened m0
                       then advertiseDefaultRoute cfg
                              (emit (WriteDebugStat ''is_gateway'' ''true'') m0)
                       else m0);
                 m2 = (if \<not> isGatewayActive m1 then flap cfg t m1 else m1)
             in m2\<lparr>isGatewayActive := True\<rparr>)
          else
            (withdrawDefaultRoute cfg (emit (WriteDebugStat ''is_gateway'' ''false'') m0))
              \<lparr>isGatewayActive := False\<rparr>)"

text \<open>
  The constructor: the two writes to procfs, then the timer is armed. The base class
  state \<open>d0\<close> and the initial \<open>isGatewayActive_\<close> come from declarations outside this
  file and are arguments.
\<close>

definition rp_filter_path :: "string \<Rightarrow> string" where
  "rp_filter_path iface = ''/proc/sys/net/ipv4/conf/'' @ iface @ ''/rp_filter''"

definition GatewayConnectivityMonitor_ctor ::
  "config \<Rightarrow> real \<times> real \<times> bool \<Rightarrow> bool \<Rightarrow> monitor" where
  "GatewayConnectivityMonitor_ctor cfg d0 active0 =
     (let m = \<lparr>fom = fst d0, lastUpdate = fst (snd d0), suppressed = snd (snd d0),
               isGatewayActive = active0, trace = [], connects = 0\<rparr>;
          m1 = emit (WriteFile ''0'' (rp_filter_path (monitoredInterface cfg))) m;
          m2 = emit (WriteFile ''0'' ''/proc/sys/net/ipv4/conf/all/rp_filter'') m1
      in emit (ScheduleTimeout (monitorInterval cfg)) m2)"

text \<open>The timer callback: one check, then the timer is armed again.\<close>

definition timerCallback :: "Socket \<Rightarrow> config \<Rightarrow> real \<Rightarrow> monitor \<Rightarrow> monitor" where
  "timerCallback sock cfg t m =
     emit (ScheduleTimeout (monitorInterval cfg)) (checkRoutesAndAdvertise sock cfg t m)"

subsection \<open>Runs of the monitor\<close>

text \<open>The member functions, and a run: the constructor followed by any of them.\<close>

datatype operation =
    TimerCallback real
  | CheckRoutesAndAdvertise real
  | ProbeWanConnectivityRobustly
  | ProbeWanConnectivity
  | SetStat string int
  | Dampen
  | Undampen
  | Flap real
  | AdvertiseDefaultRoute
  | WithdrawDefaultRoute

fun apply_op :: "Socket \<Rightarrow> config \<Rightarrow> operation \<Rightarrow> monitor \<Rightarrow> monitor" where
  "apply_op sock cfg (TimerCallback t) m = timerCallback sock cfg t m"
| "apply_op sock cfg (CheckRoutesAndAdvertise t) m = checkRoutesAndAdvertise sock cfg t m"
| "apply_op sock cfg ProbeWanConnectivityRobustly m =
     snd (probeWanConnectivityRobustly sock cfg m)"
| "apply_op sock cfg ProbeWanConnectivity m = snd (probeWanConnectivity sock cfg m)"
| "apply_op sock cfg (SetStat path v) m = setStat path v m"
| "apply_op sock cfg Dampen m = dampen cfg m"
| "apply_op sock cfg Undampen m = undampen cfg m"
| "apply_op sock cfg (Flap t) m = flap cfg t m"
| "apply_op sock cfg AdvertiseDefaultRoute m = advertiseDefaultRoute cfg m"
| "apply_op sock cfg WithdrawDefaultRoute m = withdrawDefaultRoute cfg m"

fun run :: "Socket \<Rightarrow> config \<Rightarrow> operation list \<Rightarrow> monitor \<Rightarrow> monitor" where
  "run sock cfg [] m = m"
| "run sock cfg (op # ops) m = run sock cfg ops (apply_op sock cfg op m)"

subsection \<open>Reading the trace\<close>

text \<open>The events a state has beyond an earlier one.\<close>

definition events_since :: "monitor \<Rightarrow> monitor \<Rightarrow> event list" where
  "events_since m m' = drop (length (trace m)) (trace m')"

text \<open>What advertising and withdrawing the default route show to the outside.\<close>

definition advertise_events :: "config \<Rightarrow> event list" where
  "advertise_events cfg =
     (if setRootModeIfGate cfg \<noteq> 0 then [SetRootMode (setRootModeIfGate cfg)] else []) @
     (if routing cfg then [SetGatewayStatus True] else [])"

definition withdraw_events :: "config \<Rightarrow> event list" where
  "withdraw_events cfg =
     (if setRootModeIfGate cfg \<noteq> 0 then [SetRootMode 0] else []) @
     (if routing cfg then [SetGatewayStatus False] else [])"

text \<open>The connect event of an address, and the answer to the \<open>k\<close>-th connect.\<close>

definition connect_event :: "config \<Rightarrow> SocketAddress \<Rightarrow> event" where
  "connect_event cfg addr = Connect (monitoredInterface cfg) addr (monitorSocketTimeout cfg)"

definition answer :: "Socket \<Rightarrow> config \<Rightarrow> nat \<Rightarrow> SocketAddress \<Rightarrow> Result" where
  "answer sock cfg k addr =
     connect_result sock k (monitoredInterface cfg) addr (monitorSocketTimeout cfg)"

text \<open>The state after \<open>n\<close> calls of \<open>probeWanConnectivity\<close> in a row.\<close>

definition after_probes :: "Socket \<Rightarrow> config \<Rightarrow> nat \<Rightarrow> monitor \<Rightarrow> monitor" where
  "after_probes sock cfg n m = ((\<lambda>s. snd (probeWanConnectivity sock cfg s)) ^^ n) m"

text \<open>Kinds of events.\<close>

fun is_WriteFile :: "event \<Rightarrow> bool" where
  "is_WriteFile (WriteFile v path) = True"
| "is_WriteFile e = False"

fun is_Connect :: "event \<Rightarrow> bool" where
  "is_Connect (Connect iface addr timeout) = True"
| "is_Connect e = False"

fun is_IncrementSumStat :: "event \<Rightarrow> bool" where
  "is_IncrementSumStat (IncrementSumStat key) = True"
| "is_IncrementSumStat e = False"

fun is_failed_stat :: "event \<Rightarrow> bool" where
  "is_failed_stat (IncrementSumStat key) =
     (take (length (stat_failed [])) key = stat_failed [])"
| "is_failed_stat e = False"

text \<open>The members of the dampener.\<close>

definition dampener_state :: "monitor \<Rightarrow> real \<times> real \<times> bool" where
  "dampener_state m = (fom m, lastUpdate m, suppressed m)"

definition count_success :: "event list \<Rightarrow> nat" where
  "count_success evs = length (filter (\<lambda>e. e = IncrementSumStat stat_success) evs)"

definition count_failed :: "event list \<Rightarrow> nat" where
  "count_failed evs = length (filter is_failed_stat evs)"

text \<open>
  The events that write a given file. \<open>DebugFsWriter\<close> is outside the monitor: the file
  it writes for a key is the argument \<open>debugfs\<close>, a function from keys to paths.
\<close>

fun writes_to :: "(string \<Rightarrow> string) \<Rightarrow> string \<Rightarrow> event \<Rightarrow> bool" where
  "writes_to debugfs path (WriteFile v p) = (p = path)"
| "writes_to debugfs path (WriteDebugStat key v) = (debugfs key = path)"
| "writes_to debugfs path e = False"

definition count_writes :: "(string \<Rightarrow> string) \<Rightarrow> string \<Rightarrow> event list \<Rightarrow> nat" where
  "count_writes debugfs path evs = length (filter (writes_to debugfs path) evs)"

text \<open>
  The events that are no call of \<open>folly::writeFile\<close> and, when they are a debug stat,
  are the one for the key \<open>is_gateway\<close>.
\<close>

fun no_writeFile :: "event \<Rightarrow> bool" where
  "no_writeFile (WriteFile v p) = False"
| "no_writeFile (WriteDebugStat key v) = (key = ''is_gateway'')"
| "no_writeFile e = True"


subsection \<open>A scenario\<close>

text \<open>
  Scenario S5 of the specification: two monitored addresses, robustness 3; \<open>A\<close> always
  refuses, \<open>B\<close> refuses in the first two attempts and accepts in the third, that is
  from the fifth connect of the run on (connects are counted from 0). The dampener
  parameters are those of scenario S4.
\<close>

definition S5_socket :: Socket where
  "S5_socket =
     \<lparr>connect_result = (\<lambda>k iface addr timeout.
         if addr = ''B'' \<and> 4 \<le> k then \<lparr>success = True, errorMsg = ''''\<rparr>
         else \<lparr>success = False, errorMsg = ''refused''\<rparr>),
      Result_default = \<lparr>success = False, errorMsg = ''''\<rparr>\<rparr>"

definition S5_config :: config where
  "S5_config =
     \<lparr>monitoredInterface = ''eth0'', monitoredAddresses = [''A'', ''B''],
      monitorInterval = 1, monitorSocketTimeout = 5,
      penalty = 1000, suppressLimit = 2000, reuseLimit = 500, halfLife = 300,
      maxSuppressLimit = 20000, robustness = 3, setRootModeIfGate = 1, routing = True\<rparr>"

text \<open>A debugfs directory for the scenario: one file per key.\<close>

definition S5_debugfs :: "string \<Rightarrow> string" where
  "S5_debugfs key = ''/sys/kernel/debug/fbmeshd/'' @ key"

text \<open>An inactive gateway whose dampener is one flap away from suppression.\<close>

definition S5_monitor :: monitor where
  "S5_monitor =
     \<lparr>fom = 1500, lastUpdate = 0, suppressed = False, isGatewayActive = False,
      trace = [], connects = 0\<rparr>"


section \<open>The expiry field of an introspection row\<close>

lemma max_zero_word: "max (0 :: 64 word) w = w"
  by (simp add: max_def)

lemma sdiv_negative_bounds:
  assumes "k \<le> - 1000000" and "- (2 ^ 63) \<le> (k :: int)"
  shows "- (2 ^ 63) \<le> k sdiv 1000000 \<and> k sdiv 1000000 \<le> - 1"
proof -
  have k: "k < 0" using assms by simp
  have e: "k sdiv 1000000 = - ((- k) div 1000000)"
    using k by (simp add: signed_divide_int_def sgn_if)
  have "1 \<le> (- k) div 1000000" using assms(1) by simp
  moreover have "(- k) div 1000000 \<le> - k" using k by simp
  ultimately show ?thesis using e assms(2) by simp
qed

text \<open>
  While the entry has not expired, the field is the remaining time in whole
  milliseconds.
\<close>

lemma expTimeRemainingMs_future:
  assumes "0 \<le> sint (e - now)"
  shows "uint (expTimeRemainingMs now e) = sint (e - now) div 1000000"
proof -
  let ?d = "sint (e - now)"
  have hi: "?d < 2 ^ 63" using sint_lt [of "e - now"] by simp
  have e: "?d sdiv 1000000 = ?d div 1000000"
    using assms by (simp add: signed_divide_int_def sgn_if)
  have "?d div 1000000 \<le> ?d" using assms by simp
  then have b: "0 \<le> ?d div 1000000 \<and> ?d div 1000000 < 2 ^ 64"
    using assms hi by (simp add: pos_imp_zdiv_nonneg_iff)
  have "uint (word_of_int (?d div 1000000) :: 64 word) = (?d div 1000000) mod 2 ^ 64"
    by (simp add: uint_word_of_int)
  also have "\<dots> = ?d div 1000000" using b by simp
  finally show ?thesis
    by (simp add: expTimeRemainingMs_def duration_cast_milliseconds_def max_zero_word e)
qed

text \<open>
  Once the entry has been expired for a millisecond or more, the field is not 0: read as
  an unsigned number it is at least \<open>2 ^ 63\<close>.
\<close>

lemma expTimeRemainingMs_past:
  assumes "sint (e - now) \<le> - 1000000"
  shows "2 ^ 63 \<le> uint (expTimeRemainingMs now e)"
proof -
  let ?k = "sint (e - now) sdiv 1000000"
  have lo: "- (2 ^ 63) \<le> sint (e - now)"
    using sint_ge [of "e - now"] by simp
  have b: "- (2 ^ 63) \<le> ?k \<and> ?k \<le> - 1"
    using sdiv_negative_bounds [OF assms lo] .
  have "uint (word_of_int ?k :: 64 word) = ?k mod 2 ^ 64"
    by (simp add: uint_word_of_int)
  also have "\<dots> = (?k + 2 ^ 64) mod 2 ^ 64"
    by simp
  also have "\<dots> = ?k + 2 ^ 64"
    using b by (intro mod_pos_pos_trivial) simp_all
  finally show ?thesis
    using b by (simp add: expTimeRemainingMs_def duration_cast_milliseconds_def max_zero_word)
qed

text \<open>
  C1. The claim: every row of \<open>dumpMpath\<close> carries \<open>max(0, expTime - now)\<close> in
  milliseconds, and 0 for an entry whose \<open>expTime\<close> is in the past. The code takes the
  maximum after the cast to \<open>uint64_t\<close>, where it no longer clamps: for a table with one
  entry whose \<open>expTime\<close> is 1 s, dumped when the clock reads 3 s, the field of the row is
  \<open>2 ^ 64 - 2000\<close>, not 0; read back as a signed number it is \<open>- 2000\<close>.
\<close>

theorem dumpMpath_expired_row_wraps:
  "map row_expTime
     (dumpMpath (\<lambda>k. 3000000000)
        (Some [(MacAddress 1, (MeshPath_ctor 0 (MacAddress 1))\<lparr>expTime := 1000000000\<rparr>)]) [])
   = [18446744073709549616] \<and>
   map (\<lambda>r. sint (row_expTime r))
     (dumpMpath (\<lambda>k. 3000000000)
        (Some [(MacAddress 1, (MeshPath_ctor 0 (MacAddress 1))\<lparr>expTime := 1000000000\<rparr>)]) [])
   = [- 2000]"
  by (simp add: dumpMpath_def mpathRow_def MeshPath_ctor_def expTimeRemainingMs_def
      duration_cast_milliseconds_def signed_divide_int_def)


section \<open>A fresh mesh path\<close>

text \<open>
  C8. A freshly constructed \<open>MeshPath\<close> has \<open>sn\<close>, \<open>metric\<close>, \<open>nextHopMetric\<close> and
  \<open>hopCount\<close> 0, \<open>isRoot\<close> and \<open>isGate\<close> false and \<open>expTime\<close> the time of construction;
  it is not expired at that time, and it is expired at every later time.
\<close>

theorem MeshPath_ctor_fresh:
  "sn (MeshPath_ctor now d) = 0 \<and> metric (MeshPath_ctor now d) = 0 \<and>
   nextHopMetric (MeshPath_ctor now d) = 0 \<and> hopCount (MeshPath_ctor now d) = 0 \<and>
   \<not> isRoot (MeshPath_ctor now d) \<and> \<not> isGate (MeshPath_ctor now d) \<and>
   expTime (MeshPath_ctor now d) = now \<and>
   \<not> expired now (MeshPath_ctor now d) \<and>
   (\<forall>t. sint now < sint t \<longrightarrow> expired t (MeshPath_ctor now d))"
  by (simp add: MeshPath_ctor_def expired_def)

theorem MeshPath_ctor_fresh_witness:
  "sint (5 :: 64 word) < sint (6 :: 64 word) \<and>
   expired 6 (MeshPath_ctor 5 (MacAddress 1)) \<and>
   \<not> expired 5 (MeshPath_ctor 5 (MacAddress 1))"
  using MeshPath_ctor_fresh [of 5 "MacAddress 1"] by simp

section \<open>Basic facts about the monitor\<close>

subsection \<open>The two probing loops\<close>

lemma emit_simps [simp]:
  "trace (emit e m) = trace m @ [e]"
  "fom (emit e m) = fom m"
  "lastUpdate (emit e m) = lastUpdate m"
  "suppressed (emit e m) = suppressed m"
  "isGatewayActive (emit e m) = isGatewayActive m"
  "connects (emit e m) = connects m"
  by (simp_all add: emit_def)

lemma connect_loop_all_fail:
  "\<forall>j<length as. \<not> success (answer sock cfg (connects m + j) (as ! j)) \<Longrightarrow>
   connect_loop sock cfg as res m =
     (False,
      (if as = [] then res else answer sock cfg (connects m + length as - 1) (last as)),
      m\<lparr>trace := trace m @ map (connect_event cfg) as,
        connects := connects m + length as\<rparr>)"
proof (induction as arbitrary: res m)
  case Nil
  then show ?case by simp
next
  case (Cons a as)
  let ?m' = "(emit (connect_event cfg a) m)\<lparr>connects := Suc (connects m)\<rparr>"
  from Cons.prems have h0: "\<not> success (answer sock cfg (connects m) a)"
    and hs: "\<forall>j<length as. \<not> success (answer sock cfg (connects ?m' + j) (as ! j))"
    by (auto simp: All_less_Suc2)
  have step: "connect_loop sock cfg (a # as) res m =
      connect_loop sock cfg as (answer sock cfg (connects m) a) ?m'"
    using h0 by (simp add: Socket_connect_def answer_def connect_event_def)
  show ?case
    unfolding step Cons.IH [OF hs]
    by (cases as) (simp_all add: emit_def)
qed

lemma connect_loop_first_success:
  "i < length as \<Longrightarrow>
   \<forall>j<i. \<not> success (answer sock cfg (connects m + j) (as ! j)) \<Longrightarrow>
   success (answer sock cfg (connects m + i) (as ! i)) \<Longrightarrow>
   connect_loop sock cfg as res m =
     (True, answer sock cfg (connects m + i) (as ! i),
      m\<lparr>trace := trace m @ map (connect_event cfg) (take (Suc i) as),
        connects := connects m + Suc i\<rparr>)"
proof (induction as arbitrary: res m i)
  case Nil
  then show ?case by simp
next
  case (Cons a as)
  let ?m' = "(emit (connect_event cfg a) m)\<lparr>connects := Suc (connects m)\<rparr>"
  show ?case
  proof (cases i)
    case 0
    with Cons.prems show ?thesis
      by (simp add: Socket_connect_def answer_def connect_event_def emit_def)
  next
    case (Suc i')
    from Cons.prems Suc have h0: "\<not> success (answer sock cfg (connects m) a)"
      by auto
    from Cons.prems Suc have lt: "i' < length as" by simp
    from Cons.prems Suc
    have hs: "\<forall>j<i'. \<not> success (answer sock cfg (connects ?m' + j) (as ! j))"
      by (auto simp: All_less_Suc2)
    from Cons.prems Suc
    have hi: "success (answer sock cfg (connects ?m' + i') (as ! i'))"
      by simp
    have step: "connect_loop sock cfg (a # as) res m =
        connect_loop sock cfg as (answer sock cfg (connects m) a) ?m'"
      using h0 by (simp add: Socket_connect_def answer_def connect_event_def)
    show ?thesis
      unfolding step Cons.IH [OF lt hs hi]
      using Suc by (simp add: emit_def)
  qed
qed

lemma first_or_none:
  fixes P :: "nat \<Rightarrow> bool"
  shows "(\<forall>j<n. \<not> P j) \<or> (\<exists>i<n. P i \<and> (\<forall>j<i. \<not> P j))"
proof (cases "\<exists>i<n. P i")
  case False
  then show ?thesis by simp
next
  case True
  then obtain i where i: "i < n" "P i" by blast
  define k where "k = (LEAST i. P i)"
  have "P k" unfolding k_def using i(2) by (rule LeastI)
  moreover have "k \<le> i" unfolding k_def using i(2) by (rule Least_le)
  moreover have "\<forall>j<k. \<not> P j" unfolding k_def using not_less_Least by blast
  ultimately have "k < n \<and> P k \<and> (\<forall>j<k. \<not> P j)" using i(1) by simp
  then show ?thesis by blast
qed

lemma probeWanConnectivity_cases:
  fixes sock cfg m
  defines "as \<equiv> monitoredAddresses cfg"
  shows
  "(\<exists>i<length as.
      (\<forall>j<i. \<not> success (answer sock cfg (connects m + j) (as ! j))) \<and>
      success (answer sock cfg (connects m + i) (as ! i)) \<and>
      probeWanConnectivity sock cfg m =
        (True, m\<lparr>trace := trace m @ map (connect_event cfg) (take (Suc i) as) @
                            [IncrementSumStat stat_success],
                  connects := connects m + Suc i\<rparr>)) \<or>
   ((\<forall>j<length as. \<not> success (answer sock cfg (connects m + j) (as ! j))) \<and>
    probeWanConnectivity sock cfg m =
      (False, m\<lparr>trace := trace m @ map (connect_event cfg) as @
                   [IncrementSumStat (stat_failed (errorMsg
                      (if as = [] then Result_default sock
                       else answer sock cfg (connects m + length as - 1) (last as))))],
                 connects := connects m + length as\<rparr>))"
proof -
  let ?P = "\<lambda>j. success (answer sock cfg (connects m + j) (as ! j))"
  from first_or_none [of "length as" ?P]
  show ?thesis
  proof
    assume a: "\<forall>j<length as. \<not> ?P j"
    have "probeWanConnectivity sock cfg m =
      (False, m\<lparr>trace := trace m @ map (connect_event cfg) as @
                   [IncrementSumStat (stat_failed (errorMsg
                      (if as = [] then Result_default sock
                       else answer sock cfg (connects m + length as - 1) (last as))))],
                 connects := connects m + length as\<rparr>)"
      unfolding probeWanConnectivity_def as_def [symmetric]
        connect_loop_all_fail [OF a]
      by (simp add: emit_def)
    with a show ?thesis by blast
  next
    assume "\<exists>i<length as. ?P i \<and> (\<forall>j<i. \<not> ?P j)"
    then obtain i where i: "i < length as" "?P i" "\<forall>j<i. \<not> ?P j" by blast
    have "probeWanConnectivity sock cfg m =
        (True, m\<lparr>trace := trace m @ map (connect_event cfg) (take (Suc i) as) @
                            [IncrementSumStat stat_success],
                  connects := connects m + Suc i\<rparr>)"
      unfolding probeWanConnectivity_def as_def [symmetric]
        connect_loop_first_success [OF i(1) i(3) i(2)]
      by (simp add: emit_def)
    with i show ?thesis by blast
  qed
qed

lemma after_probes_0 [simp]: "after_probes sock cfg 0 m = m"
  by (simp add: after_probes_def)

lemma after_probes_Suc:
  "after_probes sock cfg (Suc n) m = snd (probeWanConnectivity sock cfg (after_probes sock cfg n m))"
  by (simp add: after_probes_def)

lemma after_probes_Suc_front:
  "after_probes sock cfg (Suc n) m = after_probes sock cfg n (snd (probeWanConnectivity sock cfg m))"
  by (simp add: after_probes_def funpow_Suc_right del: funpow.simps(2))

lemma probeRobustly_loop_all_fail:
  "\<forall>j<robustness cfg - tryNum. \<not> fst (probeWanConnectivity sock cfg (after_probes sock cfg j m)) \<Longrightarrow>
   probeRobustly_loop sock cfg tryNum m =
     (False, after_probes sock cfg (robustness cfg - tryNum) m)"
proof (induction sock cfg tryNum m rule: probeRobustly_loop.induct)
  case (1 sock cfg tryNum m)
  show ?case
  proof (cases "tryNum < robustness cfg")
    case False
    then show ?thesis by simp
  next
    case True
    then obtain r where r: "robustness cfg - tryNum = Suc r"
      by (metis Suc_diff_Suc)
    then have r': "robustness cfg - Suc tryNum = r" by simp
    obtain ok m' where p: "probeWanConnectivity sock cfg m = (ok, m')"
      by (cases "probeWanConnectivity sock cfg m")
    from "1.prems" r have "\<not> fst (probeWanConnectivity sock cfg (after_probes sock cfg 0 m))"
      by (metis zero_less_Suc)
    with p have ok: "\<not> ok" by simp
    have "\<forall>j<robustness cfg - Suc tryNum.
            \<not> fst (probeWanConnectivity sock cfg (after_probes sock cfg j m'))"
      using "1.prems" r r' p by (auto simp: All_less_Suc2 after_probes_Suc_front)
    from "1.IH" [OF True p [symmetric] ok this]
    show ?thesis
      using True p ok r r' by (simp add: after_probes_Suc_front)
  qed
qed

lemma probeRobustly_loop_first_success:
  "tryNum + k < robustness cfg \<Longrightarrow>
   \<forall>j<k. \<not> fst (probeWanConnectivity sock cfg (after_probes sock cfg j m)) \<Longrightarrow>
   fst (probeWanConnectivity sock cfg (after_probes sock cfg k m)) \<Longrightarrow>
   probeRobustly_loop sock cfg tryNum m = (True, after_probes sock cfg (Suc k) m)"
proof (induction k arbitrary: tryNum m)
  case 0
  then show ?case
    by (cases "probeWanConnectivity sock cfg m") (simp add: after_probes_Suc)
next
  case (Suc k)
  obtain ok m' where p: "probeWanConnectivity sock cfg m = (ok, m')"
    by (cases "probeWanConnectivity sock cfg m")
  from Suc.prems(2) have "\<not> fst (probeWanConnectivity sock cfg (after_probes sock cfg 0 m))"
    by blast
  with p have ok: "\<not> ok" by simp
  have lt: "Suc tryNum + k < robustness cfg" using Suc.prems(1) by simp
  have fl: "\<forall>j<k. \<not> fst (probeWanConnectivity sock cfg (after_probes sock cfg j m'))"
    using Suc.prems(2) p by (auto simp: All_less_Suc2 after_probes_Suc_front)
  have su: "fst (probeWanConnectivity sock cfg (after_probes sock cfg k m'))"
    using Suc.prems(3) p by (simp add: after_probes_Suc_front)
  have "probeRobustly_loop sock cfg tryNum m = probeRobustly_loop sock cfg (Suc tryNum) m'"
    using Suc.prems(1) p ok by simp
  also have "\<dots> = (True, after_probes sock cfg (Suc k) m')"
    by (rule Suc.IH [OF lt fl su])
  finally show ?case using p by (simp add: after_probes_Suc_front)
qed

lemma probeWanConnectivityRobustly_cases:
  "(\<exists>k<robustness cfg.
      (\<forall>j<k. \<not> fst (probeWanConnectivity sock cfg (after_probes sock cfg j m))) \<and>
      fst (probeWanConnectivity sock cfg (after_probes sock cfg k m)) \<and>
      probeWanConnectivityRobustly sock cfg m = (True, after_probes sock cfg (Suc k) m)) \<or>
   ((\<forall>j<robustness cfg. \<not> fst (probeWanConnectivity sock cfg (after_probes sock cfg j m))) \<and>
    probeWanConnectivityRobustly sock cfg m = (False, after_probes sock cfg (robustness cfg) m))"
proof -
  let ?P = "\<lambda>j. fst (probeWanConnectivity sock cfg (after_probes sock cfg j m))"
  from first_or_none [of "robustness cfg" ?P]
  show ?thesis
  proof
    assume a: "\<forall>j<robustness cfg. \<not> ?P j"
    then have "probeWanConnectivityRobustly sock cfg m =
        (False, after_probes sock cfg (robustness cfg) m)"
      using probeRobustly_loop_all_fail [of cfg 0 sock m]
      by (simp add: probeWanConnectivityRobustly_def)
    with a show ?thesis by blast
  next
    assume "\<exists>i<robustness cfg. ?P i \<and> (\<forall>j<i. \<not> ?P j)"
    then obtain k where k: "k < robustness cfg" "?P k" "\<forall>j<k. \<not> ?P j" by blast
    have "probeWanConnectivityRobustly sock cfg m = (True, after_probes sock cfg (Suc k) m)"
      using probeRobustly_loop_first_success [of 0 k cfg sock m] k
      by (simp add: probeWanConnectivityRobustly_def)
    with k show ?thesis by blast
  qed
qed

subsection \<open>What a step leaves alone\<close>

lemma probeWanConnectivity_frame [simp]:
  "fom (snd (probeWanConnectivity sock cfg m)) = fom m"
  "lastUpdate (snd (probeWanConnectivity sock cfg m)) = lastUpdate m"
  "suppressed (snd (probeWanConnectivity sock cfg m)) = suppressed m"
  "isGatewayActive (snd (probeWanConnectivity sock cfg m)) = isGatewayActive m"
  using probeWanConnectivity_cases [of cfg sock m] by auto

lemma after_probes_frame [simp]:
  "fom (after_probes sock cfg n m) = fom m"
  "lastUpdate (after_probes sock cfg n m) = lastUpdate m"
  "suppressed (after_probes sock cfg n m) = suppressed m"
  "isGatewayActive (after_probes sock cfg n m) = isGatewayActive m"
  by (induction n) (simp_all add: after_probes_Suc)

lemma probeWanConnectivityRobustly_after:
  "\<exists>n. snd (probeWanConnectivityRobustly sock cfg m) = after_probes sock cfg n m"
  using probeWanConnectivityRobustly_cases [of cfg sock m] by auto

lemma probeWanConnectivityRobustly_frame [simp]:
  "fom (snd (probeWanConnectivityRobustly sock cfg m)) = fom m"
  "lastUpdate (snd (probeWanConnectivityRobustly sock cfg m)) = lastUpdate m"
  "suppressed (snd (probeWanConnectivityRobustly sock cfg m)) = suppressed m"
  "isGatewayActive (snd (probeWanConnectivityRobustly sock cfg m)) = isGatewayActive m"
  using probeWanConnectivityRobustly_after [of sock cfg m] by auto

lemma events_since_append [simp]:
  "trace m' = trace m @ evs \<Longrightarrow> events_since m m' = evs"
  by (simp add: events_since_def)

lemma advertiseDefaultRoute_simps [simp]:
  "trace (advertiseDefaultRoute cfg m) = trace m @ advertise_events cfg"
  "fom (advertiseDefaultRoute cfg m) = fom m"
  "lastUpdate (advertiseDefaultRoute cfg m) = lastUpdate m"
  "suppressed (advertiseDefaultRoute cfg m) = suppressed m"
  "isGatewayActive (advertiseDefaultRoute cfg m) = isGatewayActive m"
  "connects (advertiseDefaultRoute cfg m) = connects m"
  by (simp_all add: advertiseDefaultRoute_def advertise_events_def Let_def)

lemma withdrawDefaultRoute_simps [simp]:
  "trace (withdrawDefaultRoute cfg m) = trace m @ withdraw_events cfg"
  "fom (withdrawDefaultRoute cfg m) = fom m"
  "lastUpdate (withdrawDefaultRoute cfg m) = lastUpdate m"
  "suppressed (withdrawDefaultRoute cfg m) = suppressed m"
  "isGatewayActive (withdrawDefaultRoute cfg m) = isGatewayActive m"
  "connects (withdrawDefaultRoute cfg m) = connects m"
  by (simp_all add: withdrawDefaultRoute_def withdraw_events_def Let_def)

lemma dampen_inactive: "\<not> isGatewayActive m \<Longrightarrow> dampen cfg m = m"
  by (simp add: dampen_def)

lemma undampen_inactive: "\<not> isGatewayActive m \<Longrightarrow> undampen cfg m = m"
  by (simp add: undampen_def)

lemma flap_inactive:
  "\<not> isGatewayActive m \<Longrightarrow>
   trace (flap cfg t m) = trace m \<and> connects (flap cfg t m) = connects m \<and>
   \<not> isGatewayActive (flap cfg t m)"
  by (simp add: flap_def decay_def Let_def dampen_def)

text \<open>The dampener members after flap depend on the dampener members before only.\<close>

lemma flap_dampener_cong:
  "fom m = fom m' \<Longrightarrow> lastUpdate m = lastUpdate m' \<Longrightarrow> suppressed m = suppressed m' \<Longrightarrow>
   fom (flap cfg t m) = fom (flap cfg t m') \<and>
   lastUpdate (flap cfg t m) = lastUpdate (flap cfg t m') \<and>
   suppressed (flap cfg t m) = suppressed (flap cfg t m')"
  by (simp add: flap_def decay_def Let_def dampen_def)

section \<open>Probing with nothing to probe\<close>

text \<open>
  C10. With robustness 0, \<open>probeWanConnectivityRobustly\<close> returns false and leaves the
  state as it was: no probe is made. With no monitored address, \<open>probeWanConnectivity\<close>
  returns false without a connect, and the one thing it does is to increment the failure
  counter named after the error message of a default-constructed \<open>Socket::Result\<close>.
\<close>

theorem probing_degenerate:
  "(robustness cfg = 0 \<longrightarrow> probeWanConnectivityRobustly sock cfg m = (False, m)) \<and>
   (monitoredAddresses cfg = [] \<longrightarrow>
      probeWanConnectivity sock cfg m =
        (False, emit (IncrementSumStat (stat_failed (errorMsg (Result_default sock)))) m))"
  by (simp add: probeWanConnectivityRobustly_def probeWanConnectivity_def)

theorem probing_degenerate_witness:
  "robustness (S5_config\<lparr>robustness := 0\<rparr>) = 0 \<and>
   probeWanConnectivityRobustly S5_socket (S5_config\<lparr>robustness := 0\<rparr>) S5_monitor
     = (False, S5_monitor) \<and>
   monitoredAddresses (S5_config\<lparr>monitoredAddresses := []\<rparr>) = [] \<and>
   probeWanConnectivity S5_socket (S5_config\<lparr>monitoredAddresses := []\<rparr>) S5_monitor
     = (False, S5_monitor\<lparr>trace :=
         [IncrementSumStat
            ''fbmeshd.gateway_connectivity_monitor.probe_wan_connectivity.failed.'']\<rparr>)"
  using probing_degenerate [of "S5_config\<lparr>robustness := 0\<rparr>" S5_socket S5_monitor]
    probing_degenerate [of "S5_config\<lparr>monitoredAddresses := []\<rparr>" S5_socket S5_monitor]
  by (simp add: S5_config_def S5_socket_def S5_monitor_def emit_def stat_failed_def)

section \<open>The hooks of the dampener\<close>

text \<open>
  C5. \<open>dampen\<close> records "is_gateway=false" and withdraws the default route exactly when
  the gateway is active at the call, \<open>undampen\<close> records "is_gateway=true" and
  advertises it exactly when the gateway is active; on an inactive gateway both leave
  the state as it is.
\<close>

theorem dampener_hooks:
  "(isGatewayActive m \<longrightarrow>
      trace (dampen cfg m) =
        trace m @ WriteDebugStat ''is_gateway'' ''false'' # withdraw_events cfg \<and>
      trace (undampen cfg m) =
        trace m @ WriteDebugStat ''is_gateway'' ''true'' # advertise_events cfg) \<and>
   (\<not> isGatewayActive m \<longrightarrow> dampen cfg m = m \<and> undampen cfg m = m) \<and>
   (WriteDebugStat ''is_gateway'' ''false'' \<in> set (events_since m (dampen cfg m))
      \<longleftrightarrow> isGatewayActive m) \<and>
   (WriteDebugStat ''is_gateway'' ''true'' \<in> set (events_since m (undampen cfg m))
      \<longleftrightarrow> isGatewayActive m)"
  by (simp add: dampen_def undampen_def events_since_def)

theorem dampener_hooks_witness:
  "isGatewayActive (S5_monitor\<lparr>isGatewayActive := True\<rparr>) \<and>
   trace (dampen S5_config (S5_monitor\<lparr>isGatewayActive := True\<rparr>)) =
     [WriteDebugStat ''is_gateway'' ''false'', SetRootMode 0, SetGatewayStatus False] \<and>
   trace (undampen S5_config (S5_monitor\<lparr>isGatewayActive := True\<rparr>)) =
     [WriteDebugStat ''is_gateway'' ''true'', SetRootMode 1, SetGatewayStatus True] \<and>
   \<not> isGatewayActive S5_monitor \<and>
   dampen S5_config S5_monitor = S5_monitor \<and> undampen S5_config S5_monitor = S5_monitor"
  using dampener_hooks [of "S5_monitor\<lparr>isGatewayActive := True\<rparr>" S5_config]
    dampener_hooks [of S5_monitor S5_config]
  by (simp add: S5_config_def S5_monitor_def withdraw_events_def advertise_events_def)

section \<open>Advertising and withdrawing the default route\<close>

text \<open>
  C6, as claimed: \<open>advertiseDefaultRoute\<close> and \<open>withdrawDefaultRoute\<close> always call
  \<open>setGatewayStatus\<close> on the routing engine. Both guard the call with \<open>if (routing_)\<close>:
  a monitor built with a null routing pointer makes no such call.
\<close>

theorem advertise_without_routing:
  "SetGatewayStatus True \<notin>
     set (trace (advertiseDefaultRoute (S5_config\<lparr>routing := False\<rparr>) S5_monitor)) \<and>
   SetGatewayStatus False \<notin>
     set (trace (withdrawDefaultRoute (S5_config\<lparr>routing := False\<rparr>) S5_monitor))"
  by (simp add: advertiseDefaultRoute_def withdrawDefaultRoute_def S5_config_def
      S5_monitor_def emit_def)

text \<open>
  C6, amended: \<open>advertiseDefaultRoute\<close> sets the root mode to \<open>setRootModeIfGate\<close> if
  and only if that is not 0 and then, if the routing pointer is not null, calls
  \<open>setGatewayStatus(true)\<close>; \<open>withdrawDefaultRoute\<close> sets the root mode to 0 if and
  only if \<open>setRootModeIfGate\<close> is not 0 and then, if the routing pointer is not null,
  calls \<open>setGatewayStatus(false)\<close>. Neither does anything else.
\<close>

theorem advertise_withdraw_calls:
  "advertiseDefaultRoute cfg m =
     m\<lparr>trace := trace m @
         (if setRootModeIfGate cfg \<noteq> 0 then [SetRootMode (setRootModeIfGate cfg)] else []) @
         (if routing cfg then [SetGatewayStatus True] else [])\<rparr> \<and>
   withdrawDefaultRoute cfg m =
     m\<lparr>trace := trace m @
         (if setRootModeIfGate cfg \<noteq> 0 then [SetRootMode 0] else []) @
         (if routing cfg then [SetGatewayStatus False] else [])\<rparr>"
  by (simp add: advertiseDefaultRoute_def withdrawDefaultRoute_def emit_def Let_def)

theorem advertise_withdraw_calls_witness:
  "setRootModeIfGate S5_config \<noteq> 0 \<and> routing S5_config \<and>
   trace (advertiseDefaultRoute S5_config S5_monitor) = [SetRootMode 1, SetGatewayStatus True] \<and>
   trace (withdrawDefaultRoute S5_config S5_monitor) = [SetRootMode 0, SetGatewayStatus False] \<and>
   trace (advertiseDefaultRoute (S5_config\<lparr>setRootModeIfGate := 0\<rparr>) S5_monitor)
     = [SetGatewayStatus True] \<and>
   trace (withdrawDefaultRoute (S5_config\<lparr>setRootModeIfGate := 0\<rparr>) S5_monitor)
     = [SetGatewayStatus False]"
  using advertise_withdraw_calls [of S5_config S5_monitor]
    advertise_withdraw_calls [of "S5_config\<lparr>setRootModeIfGate := 0\<rparr>" S5_monitor]
  by (simp add: S5_config_def S5_monitor_def)

section \<open>The connectivity check\<close>

text \<open>The first check of the scenario probes three times; then the two branches.\<close>

lemma S5_probe_eval:
  "probeWanConnectivityRobustly S5_socket S5_config S5_monitor =
     (True, S5_monitor\<lparr>trace :=
        [Connect ''eth0'' ''A'' 5, Connect ''eth0'' ''B'' 5,
         IncrementSumStat (stat_failed ''refused''),
         Connect ''eth0'' ''A'' 5, Connect ''eth0'' ''B'' 5,
         IncrementSumStat (stat_failed ''refused''),
         Connect ''eth0'' ''A'' 5, Connect ''eth0'' ''B'' 5,
         IncrementSumStat stat_success], connects := 6\<rparr>)"
  by (simp add: probeWanConnectivityRobustly_def probeWanConnectivity_def Socket_connect_def
      emit_def S5_socket_def S5_config_def S5_monitor_def)

lemma checkRoutesAndAdvertise_success:
  assumes "fst (probeWanConnectivityRobustly sock cfg m)"
  shows "trace (checkRoutesAndAdvertise sock cfg t m) =
           trace (snd (probeWanConnectivityRobustly sock cfg m)) @
           (if \<not> suppressed m
            then WriteDebugStat ''is_gateway'' ''true'' # advertise_events cfg else [])"
    and "isGatewayActive (checkRoutesAndAdvertise sock cfg t m)"
    and "\<not> isGatewayActive m \<Longrightarrow>
           dampener_state (checkRoutesAndAdvertise sock cfg t m) = dampener_state (flap cfg t m)"
    and "isGatewayActive m \<Longrightarrow>
           dampener_state (checkRoutesAndAdvertise sock cfg t m) = dampener_state m"
proof -
  obtain ok m0 where p: "probeWanConnectivityRobustly sock cfg m = (ok, m0)"
    by (cases "probeWanConnectivityRobustly sock cfg m")
  with assms have ok: ok by simp
  have fr: "fom m0 = fom m" "lastUpdate m0 = lastUpdate m" "suppressed m0 = suppressed m"
    "isGatewayActive m0 = isGatewayActive m"
    using probeWanConnectivityRobustly_frame [of sock cfg m] p by simp_all
  define m1 where "m1 = (if \<not> isDampened m0
       then advertiseDefaultRoute cfg (emit (WriteDebugStat ''is_gateway'' ''true'') m0)
       else m0)"
  have m1: "fom m1 = fom m" "lastUpdate m1 = lastUpdate m" "suppressed m1 = suppressed m"
    "isGatewayActive m1 = isGatewayActive m"
    "trace m1 = trace m0 @ (if \<not> suppressed m
            then WriteDebugStat ''is_gateway'' ''true'' # advertise_events cfg else [])"
    using fr by (simp_all add: m1_def isDampened_def)
  have c: "checkRoutesAndAdvertise sock cfg t m =
      (if \<not> isGatewayActive m1 then flap cfg t m1 else m1)\<lparr>isGatewayActive := True\<rparr>"
    using p ok by (simp add: checkRoutesAndAdvertise_def m1_def Let_def)
  show "trace (checkRoutesAndAdvertise sock cfg t m) =
           trace (snd (probeWanConnectivityRobustly sock cfg m)) @
           (if \<not> suppressed m
            then WriteDebugStat ''is_gateway'' ''true'' # advertise_events cfg else [])"
    using c m1 p flap_inactive [of m1 cfg t] by (cases "isGatewayActive m1") simp_all
  show "isGatewayActive (checkRoutesAndAdvertise sock cfg t m)"
    using c by simp
  show "dampener_state (checkRoutesAndAdvertise sock cfg t m) = dampener_state (flap cfg t m)"
    if "\<not> isGatewayActive m"
    using that c m1 flap_dampener_cong [of m1 m cfg t] by (simp add: dampener_state_def)
  show "dampener_state (checkRoutesAndAdvertise sock cfg t m) = dampener_state m"
    if "isGatewayActive m"
    using that c m1 by (simp add: dampener_state_def)
qed

lemma checkRoutesAndAdvertise_failure:
  assumes "\<not> fst (probeWanConnectivityRobustly sock cfg m)"
  shows "trace (checkRoutesAndAdvertise sock cfg t m) =
           trace (snd (probeWanConnectivityRobustly sock cfg m)) @
           WriteDebugStat ''is_gateway'' ''false'' # withdraw_events cfg"
    and "\<not> isGatewayActive (checkRoutesAndAdvertise sock cfg t m)"
    and "dampener_state (checkRoutesAndAdvertise sock cfg t m) = dampener_state m"
proof -
  obtain ok m0 where p: "probeWanConnectivityRobustly sock cfg m = (ok, m0)"
    by (cases "probeWanConnectivityRobustly sock cfg m")
  with assms have ok: "\<not> ok" by simp
  have fr: "fom m0 = fom m" "lastUpdate m0 = lastUpdate m" "suppressed m0 = suppressed m"
    using probeWanConnectivityRobustly_frame [of sock cfg m] p by simp_all
  have c: "checkRoutesAndAdvertise sock cfg t m =
      (withdrawDefaultRoute cfg (emit (WriteDebugStat ''is_gateway'' ''false'') m0))
        \<lparr>isGatewayActive := False\<rparr>"
    using p ok by (simp add: checkRoutesAndAdvertise_def)
  show "trace (checkRoutesAndAdvertise sock cfg t m) =
           trace (snd (probeWanConnectivityRobustly sock cfg m)) @
           WriteDebugStat ''is_gateway'' ''false'' # withdraw_events cfg"
    using c p by simp
  show "\<not> isGatewayActive (checkRoutesAndAdvertise sock cfg t m)"
    using c by simp
  show "dampener_state (checkRoutesAndAdvertise sock cfg t m) = dampener_state m"
    using c fr by (simp add: dampener_state_def)
qed

text \<open>
  C2. In a check whose robust probe succeeds, the monitor records "is_gateway=true" and
  advertises the default route when the dampener is not suppressed (and does neither
  when it is), calls \<open>flap\<close> when the gateway was inactive before (the dampener is then
  as \<open>flap\<close> leaves it, and otherwise untouched), and ends with the gateway active. In
  a check whose robust probe fails, it records "is_gateway=false", withdraws the default
  route and ends with the gateway inactive.
\<close>

theorem checkRoutesAndAdvertise_tick:
  "(fst (probeWanConnectivityRobustly sock cfg m) \<longrightarrow>
      trace (checkRoutesAndAdvertise sock cfg t m) =
        trace (snd (probeWanConnectivityRobustly sock cfg m)) @
        (if \<not> suppressed m
         then WriteDebugStat ''is_gateway'' ''true'' # advertise_events cfg else []) \<and>
      (\<not> isGatewayActive m \<longrightarrow>
         dampener_state (checkRoutesAndAdvertise sock cfg t m) =
           dampener_state (flap cfg t m)) \<and>
      (isGatewayActive m \<longrightarrow>
         dampener_state (checkRoutesAndAdvertise sock cfg t m) = dampener_state m) \<and>
      isGatewayActive (checkRoutesAndAdvertise sock cfg t m)) \<and>
   (\<not> fst (probeWanConnectivityRobustly sock cfg m) \<longrightarrow>
      trace (checkRoutesAndAdvertise sock cfg t m) =
        trace (snd (probeWanConnectivityRobustly sock cfg m)) @
        WriteDebugStat ''is_gateway'' ''false'' # withdraw_events cfg \<and>
      dampener_state (checkRoutesAndAdvertise sock cfg t m) = dampener_state m \<and>
      \<not> isGatewayActive (checkRoutesAndAdvertise sock cfg t m))"
  using checkRoutesAndAdvertise_success [of sock cfg m t]
    checkRoutesAndAdvertise_failure [of sock cfg m t]
  by blast

text \<open>The scenario with robustness 2, where both attempts fail, and one flap in it.\<close>

lemma S5_probe_twice_eval:
  "probeWanConnectivityRobustly S5_socket (S5_config\<lparr>robustness := 2\<rparr>) S5_monitor =
     (False, S5_monitor\<lparr>trace :=
        [Connect ''eth0'' ''A'' 5, Connect ''eth0'' ''B'' 5,
         IncrementSumStat (stat_failed ''refused''),
         Connect ''eth0'' ''A'' 5, Connect ''eth0'' ''B'' 5,
         IncrementSumStat (stat_failed ''refused'')], connects := 4\<rparr>)"
  by (simp add: probeWanConnectivityRobustly_def probeWanConnectivity_def Socket_connect_def
      emit_def S5_socket_def S5_config_def S5_monitor_def)

lemma S5_flap_eval:
  "flap S5_config 0 S5_monitor = S5_monitor\<lparr>fom := 2500, suppressed := True\<rparr>"
  by (simp add: flap_def decay_def dampen_def S5_config_def S5_monitor_def Let_def)

theorem checkRoutesAndAdvertise_tick_witness:
  "fst (probeWanConnectivityRobustly S5_socket S5_config S5_monitor) \<and>
   \<not> suppressed S5_monitor \<and> \<not> isGatewayActive S5_monitor \<and>
   trace (checkRoutesAndAdvertise S5_socket S5_config 0 S5_monitor) =
     [Connect ''eth0'' ''A'' 5, Connect ''eth0'' ''B'' 5,
      IncrementSumStat (stat_failed ''refused''),
      Connect ''eth0'' ''A'' 5, Connect ''eth0'' ''B'' 5,
      IncrementSumStat (stat_failed ''refused''),
      Connect ''eth0'' ''A'' 5, Connect ''eth0'' ''B'' 5,
      IncrementSumStat stat_success,
      WriteDebugStat ''is_gateway'' ''true'', SetRootMode 1, SetGatewayStatus True] \<and>
   dampener_state (checkRoutesAndAdvertise S5_socket S5_config 0 S5_monitor) = (2500, 0, True) \<and>
   isGatewayActive (checkRoutesAndAdvertise S5_socket S5_config 0 S5_monitor) \<and>
   \<not> fst (probeWanConnectivityRobustly S5_socket (S5_config\<lparr>robustness := 2\<rparr>) S5_monitor) \<and>
   trace (checkRoutesAndAdvertise S5_socket (S5_config\<lparr>robustness := 2\<rparr>) 0 S5_monitor) =
     [Connect ''eth0'' ''A'' 5, Connect ''eth0'' ''B'' 5,
      IncrementSumStat (stat_failed ''refused''),
      Connect ''eth0'' ''A'' 5, Connect ''eth0'' ''B'' 5,
      IncrementSumStat (stat_failed ''refused''),
      WriteDebugStat ''is_gateway'' ''false'', SetRootMode 0, SetGatewayStatus False] \<and>
   \<not> isGatewayActive (checkRoutesAndAdvertise S5_socket (S5_config\<lparr>robustness := 2\<rparr>) 0 S5_monitor)"
proof -
  let ?c1 = "S5_config\<lparr>robustness := 2\<rparr>"
  have p: "fst (probeWanConnectivityRobustly S5_socket S5_config S5_monitor)"
    by (simp add: S5_probe_eval)
  have q: "\<not> fst (probeWanConnectivityRobustly S5_socket ?c1 S5_monitor)"
    by (simp add: S5_probe_twice_eval)
  have s: "\<not> suppressed S5_monitor" and a: "\<not> isGatewayActive S5_monitor"
    by (simp_all add: S5_monitor_def)
  have ae: "advertise_events S5_config = [SetRootMode 1, SetGatewayStatus True]"
    by (simp add: advertise_events_def S5_config_def)
  have we: "withdraw_events ?c1 = [SetRootMode 0, SetGatewayStatus False]"
    by (simp add: withdraw_events_def S5_config_def)
  have t0: "trace (snd (probeWanConnectivityRobustly S5_socket S5_config S5_monitor)) =
     [Connect ''eth0'' ''A'' 5, Connect ''eth0'' ''B'' 5,
      IncrementSumStat (stat_failed ''refused''),
      Connect ''eth0'' ''A'' 5, Connect ''eth0'' ''B'' 5,
      IncrementSumStat (stat_failed ''refused''),
      Connect ''eth0'' ''A'' 5, Connect ''eth0'' ''B'' 5,
      IncrementSumStat stat_success]"
    by (simp add: S5_probe_eval)
  have t1: "trace (snd (probeWanConnectivityRobustly S5_socket ?c1 S5_monitor)) =
     [Connect ''eth0'' ''A'' 5, Connect ''eth0'' ''B'' 5,
      IncrementSumStat (stat_failed ''refused''),
      Connect ''eth0'' ''A'' 5, Connect ''eth0'' ''B'' 5,
      IncrementSumStat (stat_failed ''refused'')]"
    by (simp add: S5_probe_twice_eval)
  have d: "dampener_state (flap S5_config 0 S5_monitor) = (2500, 0, True)"
    unfolding S5_flap_eval by (simp add: dampener_state_def S5_monitor_def)
  from checkRoutesAndAdvertise_tick [of S5_socket S5_config S5_monitor 0] p s a
  have A: "trace (checkRoutesAndAdvertise S5_socket S5_config 0 S5_monitor) =
        trace (snd (probeWanConnectivityRobustly S5_socket S5_config S5_monitor)) @
        WriteDebugStat ''is_gateway'' ''true'' # advertise_events S5_config"
    "dampener_state (checkRoutesAndAdvertise S5_socket S5_config 0 S5_monitor) =
           dampener_state (flap S5_config 0 S5_monitor)"
    "isGatewayActive (checkRoutesAndAdvertise S5_socket S5_config 0 S5_monitor)"
    by simp_all
  from checkRoutesAndAdvertise_tick [of S5_socket ?c1 S5_monitor 0] q
  have B: "trace (checkRoutesAndAdvertise S5_socket ?c1 0 S5_monitor) =
        trace (snd (probeWanConnectivityRobustly S5_socket ?c1 S5_monitor)) @
        WriteDebugStat ''is_gateway'' ''false'' # withdraw_events ?c1"
    "\<not> isGatewayActive (checkRoutesAndAdvertise S5_socket ?c1 0 S5_monitor)"
    by simp_all
  show ?thesis
    using p q s a A B unfolding ae we t0 t1 d by simp
qed

text \<open>
  C9. In a check that takes the gateway from inactive to active with the dampener not
  suppressed at its start, \<open>flap\<close> runs while \<open>isGatewayActive_\<close> is still false. If
  the dampener is suppressed after the check, the \<open>dampen\<close> hook has withdrawn nothing:
  what the check did after probing is the record "is_gateway=true" and the advertisement,
  with no "is_gateway=false", no root mode 0 and no \<open>setGatewayStatus(false)\<close>.
\<close>

theorem flap_on_activation:
  assumes "fst (probeWanConnectivityRobustly sock cfg m)"
    and "\<not> isGatewayActive m"
    and "\<not> suppressed m"
    and "suppressed (checkRoutesAndAdvertise sock cfg t m)"
  shows "\<not> isGatewayActive
           (advertiseDefaultRoute cfg (emit (WriteDebugStat ''is_gateway'' ''true'')
              (snd (probeWanConnectivityRobustly sock cfg m)))) \<and>
         checkRoutesAndAdvertise sock cfg t m =
           (flap cfg t
              (advertiseDefaultRoute cfg (emit (WriteDebugStat ''is_gateway'' ''true'')
                 (snd (probeWanConnectivityRobustly sock cfg m)))))
           \<lparr>isGatewayActive := True\<rparr> \<and>
         events_since (snd (probeWanConnectivityRobustly sock cfg m))
             (checkRoutesAndAdvertise sock cfg t m) =
           WriteDebugStat ''is_gateway'' ''true'' # advertise_events cfg \<and>
         WriteDebugStat ''is_gateway'' ''false'' \<notin>
           set (events_since (snd (probeWanConnectivityRobustly sock cfg m))
                  (checkRoutesAndAdvertise sock cfg t m)) \<and>
         SetRootMode 0 \<notin>
           set (events_since (snd (probeWanConnectivityRobustly sock cfg m))
                  (checkRoutesAndAdvertise sock cfg t m)) \<and>
         SetGatewayStatus False \<notin>
           set (events_since (snd (probeWanConnectivityRobustly sock cfg m))
                  (checkRoutesAndAdvertise sock cfg t m)) \<and>
         isGatewayActive (checkRoutesAndAdvertise sock cfg t m)"
proof -
  let ?m0 = "snd (probeWanConnectivityRobustly sock cfg m)"
  let ?m1 = "advertiseDefaultRoute cfg (emit (WriteDebugStat ''is_gateway'' ''true'') ?m0)"
  have inactive: "\<not> isGatewayActive ?m1"
    using assms(2) by simp
  obtain ok m0 where p: "probeWanConnectivityRobustly sock cfg m = (ok, m0)"
    by (cases "probeWanConnectivityRobustly sock cfg m")
  have fr: "suppressed m0 = suppressed m" "isGatewayActive m0 = isGatewayActive m"
    using probeWanConnectivityRobustly_frame [of sock cfg m] p by simp_all
  have c: "checkRoutesAndAdvertise sock cfg t m = (flap cfg t ?m1)\<lparr>isGatewayActive := True\<rparr>"
    using assms(1,2,3) p fr
    by (simp add: checkRoutesAndAdvertise_def isDampened_def Let_def)
  have tr: "trace (checkRoutesAndAdvertise sock cfg t m) =
      trace ?m0 @ WriteDebugStat ''is_gateway'' ''true'' # advertise_events cfg"
    using checkRoutesAndAdvertise_success(1) [OF assms(1), of t] assms(3) by simp
  have ev: "events_since ?m0 (checkRoutesAndAdvertise sock cfg t m) =
      WriteDebugStat ''is_gateway'' ''true'' # advertise_events cfg"
    using tr by simp
  have act: "isGatewayActive (checkRoutesAndAdvertise sock cfg t m)"
    using c by simp
  show ?thesis
    unfolding ev using inactive c act by (simp add: advertise_events_def)
qed

theorem flap_on_activation_witness:
  "fst (probeWanConnectivityRobustly S5_socket S5_config S5_monitor) \<and>
   \<not> isGatewayActive S5_monitor \<and> \<not> suppressed S5_monitor \<and>
   suppressed (checkRoutesAndAdvertise S5_socket S5_config 0 S5_monitor) \<and>
   events_since (snd (probeWanConnectivityRobustly S5_socket S5_config S5_monitor))
       (checkRoutesAndAdvertise S5_socket S5_config 0 S5_monitor) =
     [WriteDebugStat ''is_gateway'' ''true'', SetRootMode 1, SetGatewayStatus True] \<and>
   isGatewayActive (checkRoutesAndAdvertise S5_socket S5_config 0 S5_monitor)"
proof -
  have p: "fst (probeWanConnectivityRobustly S5_socket S5_config S5_monitor)"
    by (simp add: S5_probe_eval)
  have a: "\<not> isGatewayActive S5_monitor" and s: "\<not> suppressed S5_monitor"
    by (simp_all add: S5_monitor_def)
  have d: "dampener_state (checkRoutesAndAdvertise S5_socket S5_config 0 S5_monitor) =
      dampener_state (flap S5_config 0 S5_monitor)"
    using checkRoutesAndAdvertise_success(3) [OF p a] .
  have f: "suppressed (checkRoutesAndAdvertise S5_socket S5_config 0 S5_monitor)"
    using d by (simp add: dampener_state_def S5_flap_eval)
  have e: "advertise_events S5_config = [SetRootMode 1, SetGatewayStatus True]"
    by (simp add: advertise_events_def S5_config_def)
  from flap_on_activation [OF p a s f]
  have "events_since (snd (probeWanConnectivityRobustly S5_socket S5_config S5_monitor))
       (checkRoutesAndAdvertise S5_socket S5_config 0 S5_monitor) =
     [WriteDebugStat ''is_gateway'' ''true'', SetRootMode 1, SetGatewayStatus True]"
    and "isGatewayActive (checkRoutesAndAdvertise S5_socket S5_config 0 S5_monitor)"
    unfolding e by blast+
  with p a s f show ?thesis by blast
qed

section \<open>The order of probing\<close>

lemma filter_is_Connect_map [simp]:
  "filter is_Connect (map (connect_event cfg) xs) = map (connect_event cfg) xs"
  by (induction xs) (simp_all add: connect_event_def)

text \<open>
  C3. \<open>probeWanConnectivityRobustly\<close> calls \<open>probeWanConnectivity\<close> up to
  \<open>robustness\<close> times in a row: it returns true exactly when one of these calls does,
  with the state left by the first such call, and false with the state left by all
  \<open>robustness\<close> calls otherwise. One \<open>probeWanConnectivity\<close> connects to the monitored
  addresses in their order, returns true at the first address that answers with success
  (having connected to the addresses up to it and to no other) and false only when
  every address has been tried and failed.
\<close>

theorem probing_order:
  "((\<exists>k<robustness cfg.
       (\<forall>j<k. \<not> fst (probeWanConnectivity sock cfg (after_probes sock cfg j m))) \<and>
       fst (probeWanConnectivity sock cfg (after_probes sock cfg k m)) \<and>
       probeWanConnectivityRobustly sock cfg m = (True, after_probes sock cfg (Suc k) m)) \<or>
    ((\<forall>j<robustness cfg.
        \<not> fst (probeWanConnectivity sock cfg (after_probes sock cfg j m))) \<and>
     probeWanConnectivityRobustly sock cfg m =
       (False, after_probes sock cfg (robustness cfg) m))) \<and>
   ((\<exists>i<length (monitoredAddresses cfg).
       (\<forall>j<i. \<not> success (answer sock cfg (connects m + j) (monitoredAddresses cfg ! j))) \<and>
       success (answer sock cfg (connects m + i) (monitoredAddresses cfg ! i)) \<and>
       fst (probeWanConnectivity sock cfg m) \<and>
       filter is_Connect (events_since m (snd (probeWanConnectivity sock cfg m))) =
         map (connect_event cfg) (take (Suc i) (monitoredAddresses cfg))) \<or>
    ((\<forall>j<length (monitoredAddresses cfg).
        \<not> success (answer sock cfg (connects m + j) (monitoredAddresses cfg ! j))) \<and>
     \<not> fst (probeWanConnectivity sock cfg m) \<and>
     filter is_Connect (events_since m (snd (probeWanConnectivity sock cfg m))) =
       map (connect_event cfg) (monitoredAddresses cfg)))"
proof
  show "(\<exists>k<robustness cfg.
       (\<forall>j<k. \<not> fst (probeWanConnectivity sock cfg (after_probes sock cfg j m))) \<and>
       fst (probeWanConnectivity sock cfg (after_probes sock cfg k m)) \<and>
       probeWanConnectivityRobustly sock cfg m = (True, after_probes sock cfg (Suc k) m)) \<or>
    ((\<forall>j<robustness cfg.
        \<not> fst (probeWanConnectivity sock cfg (after_probes sock cfg j m))) \<and>
     probeWanConnectivityRobustly sock cfg m =
       (False, after_probes sock cfg (robustness cfg) m))"
    by (rule probeWanConnectivityRobustly_cases)
next
  let ?as = "monitoredAddresses cfg"
  from probeWanConnectivity_cases [of cfg sock m]
  show "(\<exists>i<length ?as.
       (\<forall>j<i. \<not> success (answer sock cfg (connects m + j) (?as ! j))) \<and>
       success (answer sock cfg (connects m + i) (?as ! i)) \<and>
       fst (probeWanConnectivity sock cfg m) \<and>
       filter is_Connect (events_since m (snd (probeWanConnectivity sock cfg m))) =
         map (connect_event cfg) (take (Suc i) ?as)) \<or>
    ((\<forall>j<length ?as. \<not> success (answer sock cfg (connects m + j) (?as ! j))) \<and>
     \<not> fst (probeWanConnectivity sock cfg m) \<and>
     filter is_Connect (events_since m (snd (probeWanConnectivity sock cfg m))) =
       map (connect_event cfg) ?as)"
  proof (elim disjE exE conjE)
    fix i
    assume i: "i < length ?as"
      "\<forall>j<i. \<not> success (answer sock cfg (connects m + j) (?as ! j))"
      "success (answer sock cfg (connects m + i) (?as ! i))"
      and p: "probeWanConnectivity sock cfg m =
        (True, m\<lparr>trace := trace m @ map (connect_event cfg) (take (Suc i) ?as) @
                            [IncrementSumStat stat_success],
                  connects := connects m + Suc i\<rparr>)"
    have "fst (probeWanConnectivity sock cfg m)"
      and "filter is_Connect (events_since m (snd (probeWanConnectivity sock cfg m))) =
         map (connect_event cfg) (take (Suc i) ?as)"
      unfolding p by (simp_all add: events_since_def)
    with i show ?thesis by blast
  next
    assume a: "\<forall>j<length ?as. \<not> success (answer sock cfg (connects m + j) (?as ! j))"
      and p: "probeWanConnectivity sock cfg m =
      (False, m\<lparr>trace := trace m @ map (connect_event cfg) ?as @
                   [IncrementSumStat (stat_failed (errorMsg
                      (if ?as = [] then Result_default sock
                       else answer sock cfg (connects m + length ?as - 1) (last ?as))))],
                 connects := connects m + length ?as\<rparr>)"
    have "\<not> fst (probeWanConnectivity sock cfg m)"
      and "filter is_Connect (events_since m (snd (probeWanConnectivity sock cfg m))) =
         map (connect_event cfg) ?as"
      unfolding p by (simp_all add: events_since_def)
    with a show ?thesis by blast
  qed
qed

text \<open>The first probe of the scenario.\<close>

lemma S5_probe_first_eval:
  "probeWanConnectivity S5_socket S5_config S5_monitor =
     (False, S5_monitor\<lparr>trace :=
        [Connect ''eth0'' ''A'' 5, Connect ''eth0'' ''B'' 5,
         IncrementSumStat (stat_failed ''refused'')], connects := 2\<rparr>)"
  by (simp add: probeWanConnectivity_def Socket_connect_def
      emit_def S5_socket_def S5_config_def S5_monitor_def)

theorem probing_order_witness:
  "(2 :: nat) < robustness S5_config \<and>
   fst (probeWanConnectivityRobustly S5_socket S5_config S5_monitor) \<and>
   \<not> success (answer S5_socket S5_config (connects S5_monitor + 0)
                 (monitoredAddresses S5_config ! 0)) \<and>
   \<not> success (answer S5_socket S5_config (connects S5_monitor + 1)
                 (monitoredAddresses S5_config ! 1)) \<and>
   \<not> fst (probeWanConnectivity S5_socket S5_config S5_monitor) \<and>
   filter is_Connect
       (events_since S5_monitor (snd (probeWanConnectivity S5_socket S5_config S5_monitor))) =
     [Connect ''eth0'' ''A'' 5, Connect ''eth0'' ''B'' 5]"
  using probing_order [of S5_config S5_socket S5_monitor]
  by (simp add: S5_probe_eval S5_probe_first_eval events_since_def)
     (simp add: S5_config_def S5_socket_def S5_monitor_def answer_def)

section \<open>The statistics of probing\<close>

lemma count_append [simp]:
  "count_success (xs @ ys) = count_success xs + count_success ys"
  "count_failed (xs @ ys) = count_failed xs + count_failed ys"
  by (simp_all add: count_success_def count_failed_def)

lemma count_connects [simp]:
  "count_success (map (connect_event cfg) xs) = 0"
  "count_failed (map (connect_event cfg) xs) = 0"
  by (induction xs) (simp_all add: count_success_def count_failed_def connect_event_def)

lemma stat_failed_not_success: "stat_failed msg \<noteq> stat_success"
  by (simp add: stat_failed_def stat_success_def)

lemma count_stat [simp]:
  "count_success [IncrementSumStat stat_success] = 1"
  "count_failed [IncrementSumStat stat_success] = 0"
  "count_success [IncrementSumStat (stat_failed msg)] = 0"
  "count_failed [IncrementSumStat (stat_failed msg)] = 1"
  by (simp_all add: count_success_def count_failed_def stat_failed_def stat_success_def)

lemma count_advertise [simp]:
  "count_success (advertise_events cfg) = 0"
  "count_failed (advertise_events cfg) = 0"
  by (simp_all add: count_success_def count_failed_def advertise_events_def)

lemma count_other [simp]:
  "count_success (WriteDebugStat k v # evs) = count_success evs"
  "count_failed (WriteDebugStat k v # evs) = count_failed evs"
  "count_success [] = 0"
  "count_failed [] = 0"
  by (simp_all add: count_success_def count_failed_def)

lemma probeWanConnectivity_counts:
  "\<exists>evs. trace (snd (probeWanConnectivity sock cfg m)) = trace m @ evs \<and>
         count_success evs = (if fst (probeWanConnectivity sock cfg m) then 1 else 0) \<and>
         count_failed evs = (if fst (probeWanConnectivity sock cfg m) then 0 else 1)"
  using probeWanConnectivity_cases [of cfg sock m]
  by (elim disjE exE conjE) simp_all

lemma after_probes_counts:
  "\<forall>j<n. \<not> fst (probeWanConnectivity sock cfg (after_probes sock cfg j m)) \<Longrightarrow>
   \<exists>evs. trace (after_probes sock cfg n m) = trace m @ evs \<and>
         count_success evs = 0 \<and> count_failed evs = n"
proof (induction n)
  case 0
  then show ?case by simp
next
  case (Suc n)
  then obtain evs where evs: "trace (after_probes sock cfg n m) = trace m @ evs"
    "count_success evs = 0" "count_failed evs = n"
    by auto
  from Suc.prems have f: "\<not> fst (probeWanConnectivity sock cfg (after_probes sock cfg n m))"
    by simp
  from probeWanConnectivity_counts [of sock cfg "after_probes sock cfg n m"] f
  obtain evs' where evs': "trace (after_probes sock cfg (Suc n) m) =
      trace (after_probes sock cfg n m) @ evs'"
    "count_success evs' = 0" "count_failed evs' = 1"
    by (auto simp: after_probes_Suc)
  have "trace (after_probes sock cfg (Suc n) m) = trace m @ (evs @ evs')"
    using evs(1) evs'(1) by simp
  moreover have "count_success (evs @ evs') = 0" "count_failed (evs @ evs') = Suc n"
    using evs evs' by simp_all
  ultimately show ?case by blast
qed

lemma first_success_counts:
  assumes "\<forall>j<k. \<not> fst (probeWanConnectivity sock cfg (after_probes sock cfg j m))"
    and "fst (probeWanConnectivity sock cfg (after_probes sock cfg k m))"
  shows "\<exists>evs. trace (after_probes sock cfg (Suc k) m) = trace m @ evs \<and>
         count_success evs = 1 \<and> count_failed evs = k"
proof -
  from after_probes_counts [OF assms(1)]
  obtain evs where evs: "trace (after_probes sock cfg k m) = trace m @ evs"
    "count_success evs = 0" "count_failed evs = k"
    by auto
  from probeWanConnectivity_counts [of sock cfg "after_probes sock cfg k m"] assms(2)
  obtain evs' where evs': "trace (after_probes sock cfg (Suc k) m) =
      trace (after_probes sock cfg k m) @ evs'"
    "count_success evs' = 1" "count_failed evs' = 0"
    by (auto simp: after_probes_Suc)
  have "trace (after_probes sock cfg (Suc k) m) = trace m @ (evs @ evs')"
    using evs(1) evs'(1) by simp
  moreover have "count_success (evs @ evs') = 1" "count_failed (evs @ evs') = k"
    using evs evs' by simp_all
  ultimately show ?thesis by blast
qed

lemma tick_counts:
  assumes "k < robustness cfg"
    and "\<forall>j<k. \<not> fst (probeWanConnectivity sock cfg (after_probes sock cfg j m))"
    and "fst (probeWanConnectivity sock cfg (after_probes sock cfg k m))"
  shows "count_success (events_since m (checkRoutesAndAdvertise sock cfg t m)) = 1"
    and "count_failed (events_since m (checkRoutesAndAdvertise sock cfg t m)) = k"
proof -
  have r: "probeWanConnectivityRobustly sock cfg m = (True, after_probes sock cfg (Suc k) m)"
    using probeRobustly_loop_first_success [of 0 k cfg sock m] assms
    by (simp add: probeWanConnectivityRobustly_def)
  from first_success_counts [OF assms(2,3)]
  obtain evs where evs: "trace (after_probes sock cfg (Suc k) m) = trace m @ evs"
    "count_success evs = 1" "count_failed evs = k"
    by auto
  let ?tail = "if \<not> suppressed m
            then WriteDebugStat ''is_gateway'' ''true'' # advertise_events cfg else []"
  have "trace (checkRoutesAndAdvertise sock cfg t m) = trace m @ (evs @ ?tail)"
    using checkRoutesAndAdvertise_success(1) [of sock cfg m t] r evs(1) by simp
  then have e: "events_since m (checkRoutesAndAdvertise sock cfg t m) = evs @ ?tail"
    by (rule events_since_append)
  show "count_success (events_since m (checkRoutesAndAdvertise sock cfg t m)) = 1"
    and "count_failed (events_since m (checkRoutesAndAdvertise sock cfg t m)) = k"
    unfolding e using evs(2,3) by simp_all
qed


text \<open>The second and third probe of the scenario.\<close>

lemma S5_after_1:
  "after_probes S5_socket S5_config 1 S5_monitor =
     S5_monitor\<lparr>trace :=
        [Connect ''eth0'' ''A'' 5, Connect ''eth0'' ''B'' 5,
         IncrementSumStat (stat_failed ''refused'')], connects := 2\<rparr>"
  by (simp add: after_probes_def S5_probe_first_eval)

lemma S5_probe_second_eval:
  "probeWanConnectivity S5_socket S5_config (after_probes S5_socket S5_config 1 S5_monitor) =
     (False, S5_monitor\<lparr>trace :=
        [Connect ''eth0'' ''A'' 5, Connect ''eth0'' ''B'' 5,
         IncrementSumStat (stat_failed ''refused''),
         Connect ''eth0'' ''A'' 5, Connect ''eth0'' ''B'' 5,
         IncrementSumStat (stat_failed ''refused'')], connects := 4\<rparr>)"
  unfolding S5_after_1
  by (simp add: probeWanConnectivity_def Socket_connect_def
      emit_def S5_socket_def S5_config_def S5_monitor_def)

lemma S5_after_2:
  "after_probes S5_socket S5_config 2 S5_monitor =
     S5_monitor\<lparr>trace :=
        [Connect ''eth0'' ''A'' 5, Connect ''eth0'' ''B'' 5,
         IncrementSumStat (stat_failed ''refused''),
         Connect ''eth0'' ''A'' 5, Connect ''eth0'' ''B'' 5,
         IncrementSumStat (stat_failed ''refused'')], connects := 4\<rparr>"
proof -
  have "after_probes S5_socket S5_config 2 S5_monitor =
      snd (probeWanConnectivity S5_socket S5_config
             (after_probes S5_socket S5_config 1 S5_monitor))"
    using after_probes_Suc [of S5_socket S5_config 1 S5_monitor]
    by (simp add: numeral_2_eq_2)
  then show ?thesis using S5_probe_second_eval by simp
qed

lemma S5_probe_third_eval:
  "fst (probeWanConnectivity S5_socket S5_config (after_probes S5_socket S5_config 2 S5_monitor))"
  unfolding S5_after_2
  by (simp add: probeWanConnectivity_def Socket_connect_def
      emit_def S5_socket_def S5_config_def S5_monitor_def)



section \<open>The writes to procfs\<close>

text \<open>
  No member function calls \<open>folly::writeFile\<close>, and the only debug stat any of them
  records is \<open>is_gateway\<close>: each only adds events of these kinds.
\<close>

lemma quiet_events [simp]:
  "list_all no_writeFile (map (connect_event cfg) xs)"
  "list_all no_writeFile (advertise_events cfg)"
  "list_all no_writeFile (withdraw_events cfg)"
  by (induction xs)
     (simp_all add: connect_event_def advertise_events_def withdraw_events_def)

lemma probeWanConnectivity_quiet:
  "\<exists>evs. trace (snd (probeWanConnectivity sock cfg m)) = trace m @ evs \<and>
         list_all no_writeFile evs"
  using probeWanConnectivity_cases [of cfg sock m]
  by (elim disjE exE conjE) simp_all

lemma after_probes_quiet:
  "\<exists>evs. trace (after_probes sock cfg n m) = trace m @ evs \<and> list_all no_writeFile evs"
proof (induction n)
  case 0
  then show ?case by simp
next
  case (Suc n)
  then obtain evs where evs: "trace (after_probes sock cfg n m) = trace m @ evs"
    "list_all no_writeFile evs"
    by auto
  from probeWanConnectivity_quiet [of sock cfg "after_probes sock cfg n m"]
  obtain evs' where evs': "trace (after_probes sock cfg (Suc n) m) =
      trace (after_probes sock cfg n m) @ evs'" "list_all no_writeFile evs'"
    by (auto simp: after_probes_Suc)
  have "trace (after_probes sock cfg (Suc n) m) = trace m @ (evs @ evs')"
    using evs(1) evs'(1) by simp
  moreover have "list_all no_writeFile (evs @ evs')"
    using evs(2) evs'(2) by simp
  ultimately show ?case by blast
qed

lemma probeWanConnectivityRobustly_quiet:
  "\<exists>evs. trace (snd (probeWanConnectivityRobustly sock cfg m)) = trace m @ evs \<and>
         list_all no_writeFile evs"
  using probeWanConnectivityRobustly_after [of sock cfg m]
    after_probes_quiet [of sock cfg _ m]
  by auto

lemma checkRoutesAndAdvertise_quiet:
  "\<exists>evs. trace (checkRoutesAndAdvertise sock cfg t m) = trace m @ evs \<and>
         list_all no_writeFile evs"
proof -
  from probeWanConnectivityRobustly_quiet [of sock cfg m]
  obtain evs where evs:
    "trace (snd (probeWanConnectivityRobustly sock cfg m)) = trace m @ evs"
    "list_all no_writeFile evs"
    by auto
  show ?thesis
  proof (cases "fst (probeWanConnectivityRobustly sock cfg m)")
    case True
    let ?tail = "if \<not> suppressed m
            then WriteDebugStat ''is_gateway'' ''true'' # advertise_events cfg else []"
    have "trace (checkRoutesAndAdvertise sock cfg t m) = trace m @ (evs @ ?tail)"
      using checkRoutesAndAdvertise_success(1) [OF True, of t] evs(1) by simp
    moreover have "list_all no_writeFile (evs @ ?tail)"
      using evs(2) by simp
    ultimately show ?thesis by blast
  next
    case False
    let ?tail = "WriteDebugStat ''is_gateway'' ''false'' # withdraw_events cfg"
    have "trace (checkRoutesAndAdvertise sock cfg t m) = trace m @ (evs @ ?tail)"
      using checkRoutesAndAdvertise_failure(1) [OF False, of t] evs(1) by simp
    moreover have "list_all no_writeFile (evs @ ?tail)"
      using evs(2) by simp
    ultimately show ?thesis by blast
  qed
qed

lemma timerCallback_quiet:
  "\<exists>evs. trace (timerCallback sock cfg t m) = trace m @ evs \<and> list_all no_writeFile evs"
proof -
  from checkRoutesAndAdvertise_quiet [of sock cfg t m]
  obtain evs where evs: "trace (checkRoutesAndAdvertise sock cfg t m) = trace m @ evs"
    "list_all no_writeFile evs"
    by auto
  have "trace (timerCallback sock cfg t m) =
      trace m @ (evs @ [ScheduleTimeout (monitorInterval cfg)])"
    using evs(1) by (simp add: timerCallback_def)
  moreover have "list_all no_writeFile (evs @ [ScheduleTimeout (monitorInterval cfg)])"
    using evs(2) by simp
  ultimately show ?thesis by blast
qed

lemma dampen_quiet:
  "\<exists>evs. trace (dampen cfg m) = trace m @ evs \<and> list_all no_writeFile evs"
  by (simp add: dampen_def)

lemma undampen_quiet:
  "\<exists>evs. trace (undampen cfg m) = trace m @ evs \<and> list_all no_writeFile evs"
  by (simp add: undampen_def)

lemma flap_quiet:
  "\<exists>evs. trace (flap cfg t m) = trace m @ evs \<and> list_all no_writeFile evs"
  by (simp add: flap_def decay_def Let_def dampen_def)

lemma apply_op_quiet:
  "\<exists>evs. trace (apply_op sock cfg op m) = trace m @ evs \<and> list_all no_writeFile evs"
proof (cases op)
  case (TimerCallback t)
  then show ?thesis using timerCallback_quiet [of sock cfg t m] by simp
next
  case (CheckRoutesAndAdvertise t)
  then show ?thesis using checkRoutesAndAdvertise_quiet [of sock cfg t m] by simp
next
  case ProbeWanConnectivityRobustly
  then show ?thesis using probeWanConnectivityRobustly_quiet [of sock cfg m] by simp
next
  case ProbeWanConnectivity
  then show ?thesis using probeWanConnectivity_quiet [of sock cfg m] by simp
next
  case (SetStat path v)
  then show ?thesis by (simp add: setStat_def)
next
  case Dampen
  then show ?thesis using dampen_quiet [of cfg m] by simp
next
  case Undampen
  then show ?thesis using undampen_quiet [of cfg m] by simp
next
  case (Flap t)
  then show ?thesis using flap_quiet [of cfg t m] by simp
next
  case AdvertiseDefaultRoute
  then show ?thesis by simp
next
  case WithdrawDefaultRoute
  then show ?thesis by simp
qed

lemma run_quiet:
  "\<exists>evs. trace (run sock cfg ops m) = trace m @ evs \<and> list_all no_writeFile evs"
proof (induction ops arbitrary: m)
  case Nil
  then show ?case by simp
next
  case (Cons op ops)
  from apply_op_quiet [of sock cfg op m]
  obtain evs where evs: "trace (apply_op sock cfg op m) = trace m @ evs"
    "list_all no_writeFile evs"
    by auto
  from Cons.IH [of "apply_op sock cfg op m"]
  obtain evs' where evs': "trace (run sock cfg (op # ops) m) =
      trace (apply_op sock cfg op m) @ evs'" "list_all no_writeFile evs'"
    by auto
  have "trace (run sock cfg (op # ops) m) = trace m @ (evs @ evs')"
    using evs(1) evs'(1) by simp
  moreover have "list_all no_writeFile (evs @ evs')"
    using evs(2) evs'(2) by simp
  ultimately show ?case by blast
qed

lemma quiet_no_WriteFile:
  "list_all no_writeFile evs \<Longrightarrow> filter is_WriteFile evs = []"
proof (induction evs)
  case Nil
  then show ?case by simp
next
  case (Cons e evs)
  then show ?case by (cases e) simp_all
qed

lemma quiet_count_writes:
  "list_all no_writeFile evs \<Longrightarrow> debugfs ''is_gateway'' \<noteq> path \<Longrightarrow>
   count_writes debugfs path evs = 0"
proof (induction evs)
  case Nil
  then show ?case by (simp add: count_writes_def)
next
  case (Cons e evs)
  then show ?case by (cases e) (simp_all add: count_writes_def)
qed

lemma count_writes_append:
  "count_writes debugfs path (xs @ ys) =
     count_writes debugfs path xs + count_writes debugfs path ys"
  by (simp add: count_writes_def)

lemma rp_filter_path_all:
  "rp_filter_path ''all'' = ''/proc/sys/net/ipv4/conf/all/rp_filter''"
  by (simp add: rp_filter_path_def)

lemma rp_filter_path_inject: "rp_filter_path a = rp_filter_path b \<longleftrightarrow> a = b"
  by (simp add: rp_filter_path_def)

lemma ctor_trace:
  "trace (GatewayConnectivityMonitor_ctor cfg d0 active0) =
     [WriteFile ''0'' (rp_filter_path (monitoredInterface cfg)),
      WriteFile ''0'' ''/proc/sys/net/ipv4/conf/all/rp_filter'',
      ScheduleTimeout (monitorInterval cfg)]"
  by (simp add: GatewayConnectivityMonitor_ctor_def Let_def)




end
